theory Spec2Isabelle
  imports Main "HOL-Library.Multiset"
begin

section \<open>The heap of cursor objects\<close>

text \<open>
  An iterator handle of \<^verbatim>\<open>nyan_container.h\<close> holds its cursor through a
  \<^verbatim>\<open>std::unique_ptr\<close>, and its comparison looks at the pointer itself before it looks
  at the object behind it. Cursor objects therefore live in an explicit heap: an address is
  an index into the list of allocated objects, \<open>None\<close> is the null pointer.
\<close>

type_synonym addr = nat

type_synonym 'c heap = "'c list"

datatype fault = NullDeref | Dangling | PastEnd | OutOfFuel

definition heap_at :: "'c heap \<Rightarrow> addr \<Rightarrow> 'c option" where
  "heap_at hp a = (if a < length hp then Some (hp ! a) else None)"

text \<open>Reading through a pointer: \<^verbatim>\<open>*p\<close>. A null pointer has no object behind it.\<close>

definition load :: "'c heap \<Rightarrow> addr option \<Rightarrow> fault + 'c" where
  "load hp p =
     (case p of
        None \<Rightarrow> Inl NullDeref
      | Some a \<Rightarrow> (case heap_at hp a of None \<Rightarrow> Inl Dangling | Some c \<Rightarrow> Inr c))"

section \<open>ContainerIterBase: the abstract cursor\<close>

text \<open>
  \<^verbatim>\<open>ContainerIterBase\<close> is abstract: \<^verbatim>\<open>operator ++\<close>, \<^verbatim>\<open>operator *\<close> and
  \<^verbatim>\<open>equals\<close> are pure virtual, and \<^verbatim>\<open>typeid(*this)\<close> names the concrete class. The
  header holds no implementation of them, so they are parameters: a record of functions
  over the cursor state \<open>'c\<close>, with \<open>kind_of\<close> for the run-time type.
\<close>

record ('c, 'k, 'v) cursor_ops =
  kind_of :: "'c \<Rightarrow> 'k"
  advance :: "'c \<Rightarrow> fault + 'c"
  deref :: "'c \<Rightarrow> fault + 'v"
  equals :: "'c \<Rightarrow> 'c \<Rightarrow> bool"

text \<open>
  \<^verbatim>\<open>return (typeid(*this) == typeid(other)) and this->equals(other);\<close>
  The virtual \<^verbatim>\<open>equals\<close> is only reached when the run-time types agree.
\<close>

definition ContainerIterBase_eq :: "('c, 'k, 'v) cursor_ops \<Rightarrow> 'c \<Rightarrow> 'c \<Rightarrow> bool" where
  "ContainerIterBase_eq ops this other =
     (if kind_of ops this = kind_of ops other then equals ops this other else False)"

section \<open>ContainerIterator: the handle\<close>

text \<open>The only member: \<^verbatim>\<open>std::unique_ptr<real_iterator> iter\<close>.\<close>

record handle =
  iter :: "addr option"

text \<open>\<^verbatim>\<open>ContainerIterator() = default\<close>: the pointer is null.\<close>

definition ContainerIterator_default :: handle where
  "ContainerIterator_default = \<lparr>iter = None\<rparr>"

text \<open>\<^verbatim>\<open>ContainerIterator(std::unique_ptr<real_iterator> &&real)\<close>: takes the pointer over.\<close>

definition ContainerIterator_wrap :: "addr option \<Rightarrow> handle" where
  "ContainerIterator_wrap real = \<lparr>iter = real\<rparr>"

text \<open>
  \<^verbatim>\<open>ContainerIterator(ContainerIterator &&other) : iter{std::move(other.iter)}\<close>.
  Moving a \<^verbatim>\<open>unique_ptr\<close> hands the stored pointer to the new owner and nulls the source.
  The result is the pair of the new handle and \<open>other\<close> as it is left behind. The heap is
  no argument: the constructor neither allocates nor writes an object.
\<close>

definition ContainerIterator_move :: "handle \<Rightarrow> handle \<times> handle" where
  "ContainerIterator_move other = (\<lparr>iter = iter other\<rparr>, other\<lparr>iter := None\<rparr>)"

text \<open>
  The copy constructor and the two assignment operators have no definition here:
  \<^item> \<^verbatim>\<open>ContainerIterator(const ContainerIterator &other) : iter{std::make_unique(other)}\<close>
    and \<^verbatim>\<open>this->iter = std::make_unique(other);\<close> call \<^verbatim>\<open>std::make_unique\<close> with no
    template argument, and the type to construct cannot be deduced from the call. The
    argument is the handle \<^verbatim>\<open>other\<close>, not the cursor behind \<^verbatim>\<open>other.iter\<close>, and
    \<^verbatim>\<open>ContainerIterBase\<close> is abstract with no member that clones the concrete cursor.
  \<^item> \<^verbatim>\<open>this->iter = std::move(other);\<close> assigns a handle to a \<^verbatim>\<open>unique_ptr\<close>.
  \<^item> Neither \<^verbatim>\<open>operator =\<close> returns a value.

  Each member is ill-formed once it is instantiated, so it has no behaviour to embed.
\<close>

text \<open>\<^verbatim>\<open>++(*this->iter); return *this;\<close> The cursor object is advanced in place.\<close>

definition ContainerIterator_inc ::
  "('c, 'k, 'v) cursor_ops \<Rightarrow> 'c heap \<Rightarrow> handle \<Rightarrow> fault + 'c heap" where
  "ContainerIterator_inc ops hp this =
     (case iter this of
        None \<Rightarrow> Inl NullDeref
      | Some a \<Rightarrow>
          (case heap_at hp a of
             None \<Rightarrow> Inl Dangling
           | Some c \<Rightarrow>
               (case advance ops c of Inl f \<Rightarrow> Inl f | Inr c' \<Rightarrow> Inr (hp[a := c']))))"

text \<open>\<^verbatim>\<open>return *(*this->iter);\<close>\<close>

definition ContainerIterator_deref ::
  "('c, 'k, 'v) cursor_ops \<Rightarrow> 'c heap \<Rightarrow> handle \<Rightarrow> fault + 'v" where
  "ContainerIterator_deref ops hp this =
     (case load hp (iter this) of Inl f \<Rightarrow> Inl f | Inr c \<Rightarrow> deref ops c)"

text \<open>
  \<^verbatim>\<open>return (this->iter == other.iter) or (*this->iter == *other.iter);\<close>
  The left operand compares the two pointers; only when they differ are both pointers
  dereferenced and the cursors compared by \<open>ContainerIterBase_eq\<close>.
\<close>

definition ContainerIterator_eq ::
  "('c, 'k, 'v) cursor_ops \<Rightarrow> 'c heap \<Rightarrow> handle \<Rightarrow> handle \<Rightarrow> fault + bool" where
  "ContainerIterator_eq ops hp this other =
     (if iter this = iter other then Inr True
      else
        (case load hp (iter this) of
           Inl f \<Rightarrow> Inl f
         | Inr c1 \<Rightarrow>
             (case load hp (iter other) of
                Inl f \<Rightarrow> Inl f
              | Inr c2 \<Rightarrow> Inr (ContainerIterBase_eq ops c1 c2))))"

text \<open>\<^verbatim>\<open>return not (*this == other);\<close>\<close>

definition ContainerIterator_neq ::
  "('c, 'k, 'v) cursor_ops \<Rightarrow> 'c heap \<Rightarrow> handle \<Rightarrow> handle \<Rightarrow> fault + bool" where
  "ContainerIterator_neq ops hp this other =
     (case ContainerIterator_eq ops hp this other of Inl f \<Rightarrow> Inl f | Inr r \<Rightarrow> Inr (\<not> r))"

section \<open>NyanContainer: the abstract container\<close>

text \<open>
  Every member of \<^verbatim>\<open>NyanContainer\<close> but \<^verbatim>\<open>cbegin\<close> and \<^verbatim>\<open>cend\<close> is pure virtual.
  The virtual members are the fields of a record over the container state \<open>'C\<close>; a factory
  of handles allocates its cursor, so it takes the heap and returns it.
\<close>

record ('C, 'c, 'e) container_ops =
  size_v :: "'C \<Rightarrow> nat"
  add_v :: "'C \<Rightarrow> 'e \<Rightarrow> bool \<times> 'C"
  contains_v :: "'C \<Rightarrow> 'e \<Rightarrow> bool"
  remove_v :: "'C \<Rightarrow> 'e \<Rightarrow> bool \<times> 'C"
  begin_v :: "'C \<Rightarrow> 'c heap \<Rightarrow> handle \<times> 'c heap"
  end_v :: "'C \<Rightarrow> 'c heap \<Rightarrow> handle \<times> 'c heap"
  begin_const_v :: "'C \<Rightarrow> 'c heap \<Rightarrow> handle \<times> 'c heap"
  end_const_v :: "'C \<Rightarrow> 'c heap \<Rightarrow> handle \<times> 'c heap"

text \<open>
  \<^verbatim>\<open>const_iterator cbegin() const { return this->begin(); }\<close>
  Inside a const member function \<^verbatim>\<open>this->begin()\<close> is the const overload.
\<close>

definition cbegin :: "('C, 'c, 'e) container_ops \<Rightarrow> 'C \<Rightarrow> 'c heap \<Rightarrow> handle \<times> 'c heap" where
  "cbegin cops this hp = begin_const_v cops this hp"

text \<open>\<^verbatim>\<open>const_iterator cend() const { return this->end(); }\<close>\<close>

definition cend :: "('C, 'c, 'e) container_ops \<Rightarrow> 'C \<Rightarrow> 'c heap \<Rightarrow> handle \<times> 'c heap" where
  "cend cops this hp = end_const_v cops this hp"

section \<open>A concrete cursor class for running the operations\<close>

text \<open>
  The header declares the cursor interface and no subclass of it. To run the handle
  operations at concrete inputs, a small subclass in the shape the interface asks for.
  An indexed cursor is a pair of a class tag and an index; the tag stands for the concrete
  class, so cursors of two classes can share a heap. Its \<^verbatim>\<open>equals\<close> compares indices.
\<close>

definition indexed_ops :: "(nat \<times> nat, nat, nat) cursor_ops" where
  "indexed_ops =
     \<lparr>kind_of = fst,
      advance = (\<lambda>c. Inr (fst c, Suc (snd c))),
      deref = (\<lambda>c. Inr (snd c)),
      equals = (\<lambda>c d. snd c = snd d)\<rparr>"

section \<open>A sequence container and its cursor\<close>

text \<open>
  Modelled from the spec: the concrete containers. The header declares \<^verbatim>\<open>size\<close>,
  \<^verbatim>\<open>add\<close>, \<^verbatim>\<open>contains\<close>, \<^verbatim>\<open>remove\<close>, \<^verbatim>\<open>begin\<close> and \<^verbatim>\<open>end\<close> pure
  virtual and the sources hold no subclass, so the container below follows the spec's
  Abstract Container: an entity that aggregates zero or more value entities, here in
  insertion order as in the spec's example scenario. \<open>ident\<close> is the identity of the
  container instance. Equality of the entity type stands for the variant's notion of equal
  entities.
\<close>

record 'e seq_container =
  ident :: nat
  items :: "'e list"

text \<open>Modelled from the spec: a container that aggregates zero entities.\<close>

definition seq_new :: "nat \<Rightarrow> 'e seq_container" where
  "seq_new i = \<lparr>ident = i, items = []\<rparr>"

text \<open>Modelled from the spec: \<^verbatim>\<open>size()\<close>, the count of contained entities.\<close>

definition seq_size :: "'e seq_container \<Rightarrow> nat" where
  "seq_size C = length (items C)"

text \<open>
  Modelled from the spec: \<^verbatim>\<open>contains\<close>, true iff an entity considered equal to the
  argument is present.
\<close>

definition seq_contains :: "'e seq_container \<Rightarrow> 'e \<Rightarrow> bool" where
  "seq_contains C e = (e \<in> set (items C))"

text \<open>
  Modelled from the spec: \<^verbatim>\<open>add\<close>, which returns true if the entity is newly inserted
  and false, with no change, if an equal entity was already present; the duplicate check
  is \<^verbatim>\<open>contains\<close>.
\<close>

definition seq_add :: "'e seq_container \<Rightarrow> 'e \<Rightarrow> bool \<times> 'e seq_container" where
  "seq_add C e =
     (if seq_contains C e then (False, C) else (True, C\<lparr>items := items C @ [e]\<rparr>))"

text \<open>
  Modelled from the spec: \<^verbatim>\<open>remove\<close>, which removes one entity equal to the argument
  if present and returns whether a removal occurred.
\<close>

definition seq_remove :: "'e seq_container \<Rightarrow> 'e \<Rightarrow> bool \<times> 'e seq_container" where
  "seq_remove C e =
     (if seq_contains C e then (True, C\<lparr>items := remove1 e (items C)\<rparr>) else (False, C))"

text \<open>
  Modelled from the spec: the Iteration Cursor of this container kind, bound to one
  container and one position within it (an index; the index past the last entity is the
  end position).
\<close>

record 'e seq_cursor =
  target :: "'e seq_container"
  index :: nat

text \<open>
  Modelled from the spec: \<^verbatim>\<open>advance()\<close> moves the cursor to the next position and
  is undefined on a cursor at the end position.
\<close>

definition seq_advance :: "'e seq_cursor \<Rightarrow> fault + 'e seq_cursor" where
  "seq_advance c =
     (if index c < length (items (target c)) then Inr (c\<lparr>index := Suc (index c)\<rparr>)
      else Inl PastEnd)"

text \<open>
  Modelled from the spec: \<^verbatim>\<open>dereference()\<close> returns the entity at the current position
  and is undefined on a cursor at the end position.
\<close>

definition seq_deref :: "'e seq_cursor \<Rightarrow> fault + 'e" where
  "seq_deref c =
     (if index c < length (items (target c)) then Inr (items (target c) ! index c)
      else Inl PastEnd)"

text \<open>
  Modelled from the spec: \<^verbatim>\<open>same-position\<close> compares the position state of two cursors
  of this kind: the same container and the same index.
\<close>

definition seq_equals :: "'e seq_cursor \<Rightarrow> 'e seq_cursor \<Rightarrow> bool" where
  "seq_equals c d = (ident (target c) = ident (target d) \<and> index c = index d)"

text \<open>
  Modelled from the spec: the cursor class of the sequence container, as an implementation
  of the virtual members of \<^verbatim>\<open>ContainerIterBase\<close>. All its cursors are of one kind.
\<close>

definition seq_ops :: "('e seq_cursor, unit, 'e) cursor_ops" where
  "seq_ops =
     \<lparr>kind_of = (\<lambda>c. ()), advance = seq_advance, deref = seq_deref, equals = seq_equals\<rparr>"

text \<open>
  Modelled from the spec: the creation of a cursor by a factory. The new object gets an
  address no object has yet.
\<close>

definition alloc :: "'c heap \<Rightarrow> 'c \<Rightarrow> addr \<times> 'c heap" where
  "alloc hp c = (length hp, hp @ [c])"

text \<open>
  Modelled from the spec: \<^verbatim>\<open>begin()\<close> returns a handle that owns a fresh cursor
  positioned at the first element.
\<close>

definition seq_begin ::
  "'e seq_container \<Rightarrow> 'e seq_cursor heap \<Rightarrow> handle \<times> 'e seq_cursor heap" where
  "seq_begin C hp =
     (case alloc hp \<lparr>target = C, index = 0\<rparr> of
        (a, hp') \<Rightarrow> (ContainerIterator_wrap (Some a), hp'))"

text \<open>
  Modelled from the spec: \<^verbatim>\<open>end()\<close> returns a handle that owns a fresh cursor
  positioned one past the last element.
\<close>

definition seq_end ::
  "'e seq_container \<Rightarrow> 'e seq_cursor heap \<Rightarrow> handle \<times> 'e seq_cursor heap" where
  "seq_end C hp =
     (case alloc hp \<lparr>target = C, index = length (items C)\<rparr> of
        (a, hp') \<Rightarrow> (ContainerIterator_wrap (Some a), hp'))"

text \<open>
  Modelled from the spec: iterating from \<^verbatim>\<open>begin()\<close> to \<^verbatim>\<open>end()\<close>, the caller's loop
  \<^verbatim>\<open>for (; it != fin; ++it) visit(*it);\<close> written with the operators of
  \<^verbatim>\<open>ContainerIterator\<close>. Each round logs the cursor the handle stands at (the position
  visited) and the entity dereferenced there. The loop is bounded by fuel: running out of
  it is a fault, so a result is a traversal that reached \<open>fin\<close>.
\<close>

fun visit_all ::
  "nat \<Rightarrow> ('c, 'k, 'v) cursor_ops \<Rightarrow> 'c heap \<Rightarrow> handle \<Rightarrow> handle \<Rightarrow> fault + ('c \<times> 'v) list" where
  "visit_all 0 ops hp it fin = Inl OutOfFuel"
| "visit_all (Suc n) ops hp it fin =
     (case ContainerIterator_neq ops hp it fin of
        Inl f \<Rightarrow> Inl f
      | Inr go \<Rightarrow>
          if \<not> go then Inr []
          else
            (case load hp (iter it) of
               Inl f \<Rightarrow> Inl f
             | Inr c \<Rightarrow>
                 (case ContainerIterator_deref ops hp it of
                    Inl f \<Rightarrow> Inl f
                  | Inr v \<Rightarrow>
                      (case ContainerIterator_inc ops hp it of
                         Inl f \<Rightarrow> Inl f
                       | Inr hp' \<Rightarrow>
                           (case visit_all n ops hp' it fin of
                              Inl f \<Rightarrow> Inl f
                            | Inr vs \<Rightarrow> Inr ((c, v) # vs))))))"

text \<open>
  Modelled from the spec: the reachable states of a container, those a new container gets
  to by a sequence of \<^verbatim>\<open>add\<close> and \<^verbatim>\<open>remove\<close> calls.
\<close>

datatype 'e request = Add 'e | Remove 'e

fun serve :: "'e seq_container \<Rightarrow> 'e request \<Rightarrow> 'e seq_container" where
  "serve C (Add e) = snd (seq_add C e)"
| "serve C (Remove e) = snd (seq_remove C e)"

definition run :: "'e seq_container \<Rightarrow> 'e request list \<Rightarrow> 'e seq_container" where
  "run C rs = foldl serve C rs"

section \<open>Comparison of handles\<close>

lemma load_owned: "heap_at hp a = Some c \<Longrightarrow> load hp (Some a) = Inr c"
  by (simp add: load_def)

lemma ContainerIterator_eq_null: "iter h1 = None \<Longrightarrow> iter h2 = None \<Longrightarrow>
    ContainerIterator_eq ops hp h1 h2 = Inr True"
  by (simp add: ContainerIterator_eq_def)

lemma ContainerIterator_eq_owned:
  assumes "iter h1 = Some a" and "iter h2 = Some b"
    and "heap_at hp a = Some c1" and "heap_at hp b = Some c2"
  shows "ContainerIterator_eq ops hp h1 h2 =
    Inr (a = b \<or> (kind_of ops c1 = kind_of ops c2 \<and> equals ops c1 c2))"
proof (cases "a = b")
  case True
  with assms show ?thesis
    by (simp add: ContainerIterator_eq_def)
next
  case False
  with assms show ?thesis
    by (simp add: ContainerIterator_eq_def load_owned ContainerIterBase_eq_def)
qed

lemma kinds_differ_addrs_differ:
  assumes "heap_at hp a = Some c1" and "heap_at hp b = Some c2"
    and "kind_of ops c1 \<noteq> kind_of ops c2"
  shows "a \<noteq> b"
  using assms by auto

text \<open>
  Where the same-position check of a cursor answers true for the cursor and itself, the
  pointer comparison adds nothing: the result is the kind guard and the check alone.
\<close>

lemma ContainerIterator_eq_reflexive_equals:
  assumes "iter h1 = Some a" and "iter h2 = Some b"
    and "heap_at hp a = Some c1" and "heap_at hp b = Some c2"
    and "equals ops c1 c1"
  shows "ContainerIterator_eq ops hp h1 h2 =
    Inr (kind_of ops c1 = kind_of ops c2 \<and> equals ops c1 c2)"
proof (cases "a = b")
  case True
  with assms(3,4) have "c1 = c2" by simp
  with True assms show ?thesis
    by (simp add: ContainerIterator_eq_def)
next
  case False
  with ContainerIterator_eq_owned [OF assms(1-4)] show ?thesis
    by simp
qed

text \<open>
  Claim C8: for every pair of handles, \<^verbatim>\<open>h1 != h2\<close> returns exactly the logical negation
  of \<^verbatim>\<open>h1 == h2\<close>; where the comparison itself is not defined (a fault), neither is its
  negation.
\<close>

theorem neq_is_negated_eq:
  "ContainerIterator_neq ops hp h1 h2 = map_sum id Not (ContainerIterator_eq ops hp h1 h2)"
  by (cases "ContainerIterator_eq ops hp h1 h2") (simp_all add: ContainerIterator_neq_def)

text \<open>
  Claim C1: for every pair of handles \<open>h1\<close> and \<open>h2\<close> that each own a cursor,
  \<^verbatim>\<open>h1 == h2\<close> is true if and only if the two cursors are of the identical concrete kind
  and the same-position check \<^verbatim>\<open>equals\<close> returns true; handles whose cursors are of
  differing concrete kinds are never equal. For two handles over distinct cursor objects
  this holds of any cursor class. Where both handles hold the same cursor object, as in
  \<^verbatim>\<open>it == it\<close>, the pointer comparison answers before \<^verbatim>\<open>equals\<close> is asked, and the
  check is taken to do what its docstring says ("perform the comparison if both iterators
  point to the same element"): a cursor is at the position it is at.
\<close>

theorem handle_eq_kind_and_position:
  assumes "iter h1 = Some a" and "iter h2 = Some b"
    and "heap_at hp a = Some c1" and "heap_at hp b = Some c2"
    and same_object: "a = b \<Longrightarrow> equals ops c1 c1"
  shows "ContainerIterator_eq ops hp h1 h2 =
      Inr (kind_of ops c1 = kind_of ops c2 \<and> equals ops c1 c2)
    \<and> (kind_of ops c1 \<noteq> kind_of ops c2 \<longrightarrow> ContainerIterator_eq ops hp h1 h2 = Inr False)"
proof -
  have eq: "ContainerIterator_eq ops hp h1 h2 =
      Inr (kind_of ops c1 = kind_of ops c2 \<and> equals ops c1 c2)"
  proof (cases "a = b")
    case True
    then have "equals ops c1 c1"
      by (rule same_object)
    with assms(1-4) show ?thesis
      by (rule ContainerIterator_eq_reflexive_equals)
  next
    case False
    with ContainerIterator_eq_owned [OF assms(1-4)] show ?thesis
      by simp
  qed
  then show ?thesis
    by simp
qed

text \<open>
  The theorem at concrete inputs: a heap of three indexed cursors, two of class 0 and one
  of class 1, all at index 2. The two cursors of class 0 compare equal, a cursor of class 0
  never equals the one of class 1 although the indices agree, and a handle equals itself.
\<close>

theorem handle_eq_kind_and_position_witness:
  "ContainerIterator_eq indexed_ops [(0, 2), (0, 2), (1, 2)] \<lparr>iter = Some 0\<rparr> \<lparr>iter = Some 1\<rparr>
     = Inr True
   \<and> ContainerIterator_eq indexed_ops [(0, 2), (0, 2), (1, 2)] \<lparr>iter = Some 0\<rparr> \<lparr>iter = Some 2\<rparr>
     = Inr False
   \<and> ContainerIterator_eq indexed_ops [(0, 2), (0, 2), (1, 2)] \<lparr>iter = Some 2\<rparr> \<lparr>iter = Some 2\<rparr>
     = Inr True"
  using
    handle_eq_kind_and_position
      [of "\<lparr>iter = Some 0\<rparr>" 0 "\<lparr>iter = Some 1\<rparr>" 1 "[(0, 2), (0, 2), (1, 2)]"
          "(0, 2)" "(0, 2)" indexed_ops]
    handle_eq_kind_and_position
      [of "\<lparr>iter = Some 0\<rparr>" 0 "\<lparr>iter = Some 2\<rparr>" 2 "[(0, 2), (0, 2), (1, 2)]"
          "(0, 2)" "(1, 2)" indexed_ops]
    handle_eq_kind_and_position
      [of "\<lparr>iter = Some 2\<rparr>" 2 "\<lparr>iter = Some 2\<rparr>" 2 "[(0, 2), (0, 2), (1, 2)]"
          "(1, 2)" "(1, 2)" indexed_ops]
  by (simp add: heap_at_def indexed_ops_def)

text \<open>
  Claim C3, as amended: for every pair of handles that both own a cursor, of whichever
  concrete kinds, and for every pair of handles that both hold no cursor, \<^verbatim>\<open>h1 == h2\<close>
  is well defined: it returns a boolean. Cursors of differing kinds make it false, and two
  handles holding no cursor are equal.
\<close>

theorem handle_eq_defined:
  "(iter h1 = None \<and> iter h2 = None \<longrightarrow> ContainerIterator_eq ops hp h1 h2 = Inr True)
   \<and> (\<forall>a b c1 c2.
        iter h1 = Some a \<and> iter h2 = Some b \<and> heap_at hp a = Some c1 \<and> heap_at hp b = Some c2
        \<longrightarrow> (\<exists>r. ContainerIterator_eq ops hp h1 h2 = Inr r)
          \<and> (kind_of ops c1 \<noteq> kind_of ops c2
              \<longrightarrow> ContainerIterator_eq ops hp h1 h2 = Inr False))"
proof (intro conjI allI impI)
  assume "iter h1 = None \<and> iter h2 = None"
  then show "ContainerIterator_eq ops hp h1 h2 = Inr True"
    by (simp add: ContainerIterator_eq_null)
next
  fix a b c1 c2
  assume own: "iter h1 = Some a \<and> iter h2 = Some b
    \<and> heap_at hp a = Some c1 \<and> heap_at hp b = Some c2"
  then have eq: "ContainerIterator_eq ops hp h1 h2 =
      Inr (a = b \<or> (kind_of ops c1 = kind_of ops c2 \<and> equals ops c1 c2))"
    by (simp add: ContainerIterator_eq_owned)
  then show "\<exists>r. ContainerIterator_eq ops hp h1 h2 = Inr r"
    by blast
  assume "kind_of ops c1 \<noteq> kind_of ops c2"
  moreover from this own have "a \<noteq> b"
    by (auto dest: kinds_differ_addrs_differ)
  ultimately show "ContainerIterator_eq ops hp h1 h2 = Inr False"
    using eq by simp
qed

text \<open>
  The theorem at concrete inputs: two default-constructed handles, and two handles over
  indexed cursors of classes 0 and 1.
\<close>

theorem handle_eq_defined_witness:
  "ContainerIterator_eq indexed_ops [(0, 2), (1, 2)]
       ContainerIterator_default ContainerIterator_default = Inr True
   \<and> ContainerIterator_eq indexed_ops [(0, 2), (1, 2)] \<lparr>iter = Some 0\<rparr> \<lparr>iter = Some 1\<rparr>
       = Inr False"
proof -
  have none: "iter ContainerIterator_default = None \<and> iter ContainerIterator_default = None"
    by (simp add: ContainerIterator_default_def)
  have own: "iter \<lparr>iter = Some 0\<rparr> = Some 0 \<and> iter \<lparr>iter = Some 1\<rparr> = Some 1
      \<and> heap_at [(0, 2), (1, 2)] 0 = Some (0::nat, 2::nat)
      \<and> heap_at [(0, 2), (1, 2)] 1 = Some (1::nat, 2::nat)"
    by (simp add: heap_at_def)
  have kinds: "kind_of indexed_ops (0, 2) \<noteq> kind_of indexed_ops (1, 2)"
    by (simp add: indexed_ops_def)
  from handle_eq_defined
    [of ContainerIterator_default ContainerIterator_default indexed_ops "[(0, 2), (1, 2)]"]
    none
  have "ContainerIterator_eq indexed_ops [(0, 2), (1, 2)]
      ContainerIterator_default ContainerIterator_default = Inr True"
    by blast
  moreover from handle_eq_defined
    [of "\<lparr>iter = Some 0\<rparr>" "\<lparr>iter = Some 1\<rparr>" indexed_ops "[(0, 2), (1, 2)]"]
    own kinds
  have "ContainerIterator_eq indexed_ops [(0, 2), (1, 2)] \<lparr>iter = Some 0\<rparr> \<lparr>iter = Some 1\<rparr>
      = Inr False"
    by blast
  ultimately show ?thesis by simp
qed

text \<open>
  Claim C3 as it is written fails when exactly one handle holds no cursor: the pointers
  differ, so both are dereferenced, and the null one has no object behind it. The
  comparison of a default-constructed handle with a handle that owns a cursor does not
  return false; it is a null dereference, from either side.
\<close>

theorem handle_eq_null_counterexample:
  "ContainerIterator_eq indexed_ops [(0, 2)] ContainerIterator_default \<lparr>iter = Some 0\<rparr>
     = Inl NullDeref
   \<and> ContainerIterator_eq indexed_ops [(0, 2)] \<lparr>iter = Some 0\<rparr> ContainerIterator_default
     = Inl NullDeref"
  by (simp add: ContainerIterator_eq_def ContainerIterator_default_def load_def heap_at_def)

section \<open>Moving a handle\<close>

text \<open>
  Claim C9: move-constructing a handle from a handle \<open>h\<close> that owns a cursor gives the new
  handle the very same cursor object (the same address, so no clone is made and whatever
  heap the address is read in, both read the same object) and leaves \<open>h\<close> holding no
  cursor, as a default-constructed handle.
\<close>

theorem move_transfers_cursor:
  assumes "iter h = Some a"
  shows "iter (fst (ContainerIterator_move h)) = Some a
    \<and> load hp (iter (fst (ContainerIterator_move h))) = load hp (iter h)
    \<and> iter (snd (ContainerIterator_move h)) = None
    \<and> snd (ContainerIterator_move h) = ContainerIterator_default"
  using assms by (simp add: ContainerIterator_move_def ContainerIterator_default_def)

theorem move_transfers_cursor_witness:
  "iter (fst (ContainerIterator_move \<lparr>iter = Some 1\<rparr>)) = Some 1
   \<and> load [(0, 2), (0, 5)] (iter (fst (ContainerIterator_move \<lparr>iter = Some 1\<rparr>)))
       = Inr (0::nat, 5::nat)
   \<and> iter (snd (ContainerIterator_move \<lparr>iter = Some 1\<rparr>)) = None"
  using move_transfers_cursor [of "\<lparr>iter = Some 1\<rparr>" 1 "[(0::nat, 2::nat), (0, 5)]"]
  by (simp add: load_def heap_at_def ContainerIterator_default_def)

section \<open>The const factories\<close>

text \<open>
  Claim C10: for every container, \<^verbatim>\<open>cbegin()\<close> returns what the const-qualified
  \<^verbatim>\<open>begin()\<close> overload returns, and \<^verbatim>\<open>cend()\<close> what the const-qualified
  \<^verbatim>\<open>end()\<close> overload returns: the same handle, over the same heap.
\<close>

theorem cbegin_cend_are_const_overloads:
  "cbegin cops C hp = begin_const_v cops C hp \<and> cend cops C hp = end_const_v cops C hp"
  by (simp add: cbegin_def cend_def)

section \<open>The sequence container\<close>

lemma serve_distinct: "distinct (items C) \<Longrightarrow> distinct (items (serve C r))"
  by (cases r) (auto simp: seq_add_def seq_remove_def seq_contains_def)

lemma run_distinct: "distinct (items C) \<Longrightarrow> distinct (items (run C rs))"
  unfolding run_def by (induction rs arbitrary: C) (simp_all add: serve_distinct)

lemma visit_from:
  assumes "heap_at hp a = Some \<lparr>target = C, index = i\<rparr>"
    and "heap_at hp b = Some \<lparr>target = C, index = length (items C)\<rparr>"
    and "a \<noteq> b" and "i \<le> length (items C)" and "length (items C) - i < n"
  shows "visit_all n seq_ops hp \<lparr>iter = Some a\<rparr> \<lparr>iter = Some b\<rparr> =
    Inr (map (\<lambda>j. (\<lparr>target = C, index = j\<rparr>, items C ! j)) [i..<length (items C)])"
  using assms
proof (induction n arbitrary: i hp)
  case 0
  then show ?case by simp
next
  case (Suc n)
  have neq: "ContainerIterator_neq seq_ops hp \<lparr>iter = Some a\<rparr> \<lparr>iter = Some b\<rparr>
      = Inr (i \<noteq> length (items C))"
    using Suc.prems(1,2,3)
    by (simp add: ContainerIterator_neq_def ContainerIterator_eq_def load_def
        ContainerIterBase_eq_def seq_ops_def seq_equals_def)
  show ?case
  proof (cases "i = length (items C)")
    case True
    with neq show ?thesis by simp
  next
    case False
    with Suc.prems(4) have lt: "i < length (items C)" by simp
    have a_in: "a < length hp"
      using Suc.prems(1) by (simp add: heap_at_def split: if_splits)
    let ?hp = "hp[a := \<lparr>target = C, index = Suc i\<rparr>]"
    have h1: "heap_at ?hp a = Some \<lparr>target = C, index = Suc i\<rparr>"
      using a_in by (simp add: heap_at_def)
    have h2: "heap_at ?hp b = Some \<lparr>target = C, index = length (items C)\<rparr>"
      using Suc.prems(2,3) by (simp add: heap_at_def split: if_splits)
    have rest: "visit_all n seq_ops ?hp \<lparr>iter = Some a\<rparr> \<lparr>iter = Some b\<rparr> =
        Inr (map (\<lambda>j. (\<lparr>target = C, index = j\<rparr>, items C ! j)) [Suc i..<length (items C)])"
      using Suc.IH [OF h1 h2 Suc.prems(3)] lt Suc.prems(5) by simp
    have ld: "load hp (Some a) = Inr \<lparr>target = C, index = i\<rparr>"
      using Suc.prems(1) by (simp add: load_def)
    have dr: "ContainerIterator_deref seq_ops hp \<lparr>iter = Some a\<rparr> = Inr (items C ! i)"
      using ld lt by (simp add: ContainerIterator_deref_def seq_ops_def seq_deref_def)
    have inc: "ContainerIterator_inc seq_ops hp \<lparr>iter = Some a\<rparr> = Inr ?hp"
      using Suc.prems(1) lt by (simp add: ContainerIterator_inc_def seq_ops_def seq_advance_def)
    show ?thesis
      using neq False ld dr inc rest lt by (simp add: upt_conv_Cons)
  qed
qed


lemma run_new_distinct: "distinct (items (run (seq_new i) rs))"
  by (rule run_distinct) (simp add: seq_new_def)

lemma begin_end_heap:
  assumes "seq_begin C hp = (b, hp1)" and "seq_end C hp1 = (e, hp2)"
  shows "b = \<lparr>iter = Some (length hp)\<rparr>" and "e = \<lparr>iter = Some (Suc (length hp))\<rparr>"
    and "heap_at hp2 (length hp) = Some \<lparr>target = C, index = 0\<rparr>"
    and "heap_at hp2 (Suc (length hp)) = Some \<lparr>target = C, index = length (items C)\<rparr>"
  using assms
  by (auto simp: seq_begin_def seq_end_def alloc_def ContainerIterator_wrap_def heap_at_def
      nth_append)

text \<open>
  Claim C4: for every container \<open>C\<close> and entity \<open>e\<close>, if \<^verbatim>\<open>C.add(e)\<close> returns true then
  \<^verbatim>\<open>C.contains(e)\<close> is true afterwards and \<^verbatim>\<open>C.size()\<close> has grown by exactly 1; if it
  returns false then \<^verbatim>\<open>C.size()\<close> is unchanged.
\<close>

theorem add_contains_size:
  assumes "seq_add C e = (r, C')"
  shows "(r \<longrightarrow> seq_contains C' e \<and> seq_size C' = seq_size C + 1)
    \<and> (\<not> r \<longrightarrow> seq_size C' = seq_size C)"
  using assms by (auto simp: seq_add_def seq_contains_def seq_size_def split: if_splits)

theorem add_contains_size_witness:
  "seq_add \<lparr>ident = 0, items = [1::nat, 2]\<rparr> 3 = (True, \<lparr>ident = 0, items = [1, 2, 3]\<rparr>)
   \<and> seq_contains \<lparr>ident = 0, items = [1::nat, 2, 3]\<rparr> 3
   \<and> seq_size \<lparr>ident = 0, items = [1::nat, 2, 3]\<rparr> = seq_size \<lparr>ident = 0, items = [1::nat, 2]\<rparr> + 1
   \<and> seq_add \<lparr>ident = 0, items = [1::nat, 2]\<rparr> 1 = (False, \<lparr>ident = 0, items = [1, 2]\<rparr>)"
proof -
  have a: "seq_add \<lparr>ident = 0, items = [1::nat, 2]\<rparr> 3 = (True, \<lparr>ident = 0, items = [1, 2, 3]\<rparr>)"
    by (simp add: seq_add_def seq_contains_def)
  have b: "seq_add \<lparr>ident = 0, items = [1::nat, 2]\<rparr> 1 = (False, \<lparr>ident = 0, items = [1, 2]\<rparr>)"
    by (simp add: seq_add_def seq_contains_def)
  from add_contains_size [OF a] a b show ?thesis by simp
qed

text \<open>
  Claim C7: for every container \<open>C\<close> and entity \<open>e\<close> not present in \<open>C\<close>, \<^verbatim>\<open>C.remove(e)\<close>
  returns false and leaves the state of the container as it was; for every \<open>e\<close> present,
  it returns true and removes one entity equal to \<open>e\<close>: the entities before are those
  after, with one \<open>e\<close> more.
\<close>

theorem remove_absent_present:
  "(\<not> seq_contains C e \<longrightarrow> seq_remove C e = (False, C))
   \<and> (seq_contains C e \<longrightarrow>
        fst (seq_remove C e) = True
        \<and> ident (snd (seq_remove C e)) = ident C
        \<and> mset (items C) = add_mset e (mset (items (snd (seq_remove C e))))
        \<and> seq_size (snd (seq_remove C e)) + 1 = seq_size C)"
  by (auto simp: seq_remove_def seq_contains_def seq_size_def length_remove1
      dest: length_pos_if_in_set)

theorem remove_absent_present_witness:
  "seq_remove \<lparr>ident = 0, items = [1::nat, 2]\<rparr> 3 = (False, \<lparr>ident = 0, items = [1, 2]\<rparr>)
   \<and> seq_remove \<lparr>ident = 0, items = [1::nat, 2]\<rparr> 1 = (True, \<lparr>ident = 0, items = [2]\<rparr>)
   \<and> mset [1::nat, 2] = add_mset 1 (mset (items (snd (seq_remove \<lparr>ident = 0, items = [1, 2]\<rparr> 1))))"
proof -
  have absent: "\<not> seq_contains \<lparr>ident = 0, items = [1::nat, 2]\<rparr> 3"
    by (simp add: seq_contains_def)
  have present: "seq_contains \<lparr>ident = 0, items = [1::nat, 2]\<rparr> 1"
    by (simp add: seq_contains_def)
  have r: "seq_remove \<lparr>ident = 0, items = [1::nat, 2]\<rparr> 1 = (True, \<lparr>ident = 0, items = [2]\<rparr>)"
    by (simp add: seq_remove_def seq_contains_def)
  from remove_absent_present [of "\<lparr>ident = 0, items = [1::nat, 2]\<rparr>" 3] absent
  have "seq_remove \<lparr>ident = 0, items = [1::nat, 2]\<rparr> 3 = (False, \<lparr>ident = 0, items = [1, 2]\<rparr>)"
    by blast
  moreover from remove_absent_present [of "\<lparr>ident = 0, items = [1::nat, 2]\<rparr>" 1] present
  have "mset (items \<lparr>ident = 0, items = [1::nat, 2]\<rparr>)
      = add_mset 1 (mset (items (snd (seq_remove \<lparr>ident = 0, items = [1, 2]\<rparr> 1))))"
    by blast
  ultimately show ?thesis
    using r by simp
qed

text \<open>
  Claim C6: for every container \<open>C\<close>, the handles returned by \<^verbatim>\<open>C.begin()\<close> and
  \<^verbatim>\<open>C.end()\<close> compare equal, by the \<^verbatim>\<open>operator ==\<close> of \<^verbatim>\<open>ContainerIterator\<close>,
  if and only if \<^verbatim>\<open>C.size()\<close> is 0.
\<close>

theorem begin_eq_end_iff_empty:
  assumes "seq_begin C hp = (b, hp1)" and "seq_end C hp1 = (e, hp2)"
  shows "ContainerIterator_eq seq_ops hp2 b e = Inr (seq_size C = 0)"
proof -
  note h = begin_end_heap [OF assms]
  have "ContainerIterator_eq seq_ops hp2 b e =
      Inr (length hp = Suc (length hp)
        \<or> (kind_of seq_ops \<lparr>target = C, index = 0\<rparr>
            = kind_of seq_ops \<lparr>target = C, index = length (items C)\<rparr>
          \<and> equals seq_ops \<lparr>target = C, index = 0\<rparr> \<lparr>target = C, index = length (items C)\<rparr>))"
    by (rule ContainerIterator_eq_owned) (simp_all add: h)
  then show ?thesis
    by (auto simp: seq_ops_def seq_equals_def seq_size_def)
qed

theorem begin_eq_end_iff_empty_witness:
  "ContainerIterator_eq seq_ops
       [\<lparr>target = \<lparr>ident = 0, items = [] :: nat list\<rparr>, index = 0\<rparr>,
        \<lparr>target = \<lparr>ident = 0, items = []\<rparr>, index = 0\<rparr>]
       \<lparr>iter = Some 0\<rparr> \<lparr>iter = Some 1\<rparr>
     = Inr True
   \<and> ContainerIterator_eq seq_ops
       [\<lparr>target = \<lparr>ident = 0, items = [5::nat, 6]\<rparr>, index = 0\<rparr>,
        \<lparr>target = \<lparr>ident = 0, items = [5, 6]\<rparr>, index = 2\<rparr>]
       \<lparr>iter = Some 0\<rparr> \<lparr>iter = Some 1\<rparr>
     = Inr False"
proof -
  let ?E = "\<lparr>ident = 0, items = [] :: nat list\<rparr>"
  let ?C = "\<lparr>ident = 0, items = [5::nat, 6]\<rparr>"
  have bE: "seq_begin ?E [] = (\<lparr>iter = Some 0\<rparr>, [\<lparr>target = ?E, index = 0\<rparr>])"
    by (simp add: seq_begin_def alloc_def ContainerIterator_wrap_def)
  have eE: "seq_end ?E [\<lparr>target = ?E, index = 0\<rparr>]
      = (\<lparr>iter = Some 1\<rparr>, [\<lparr>target = ?E, index = 0\<rparr>, \<lparr>target = ?E, index = 0\<rparr>])"
    by (simp add: seq_end_def alloc_def ContainerIterator_wrap_def)
  have bC: "seq_begin ?C [] = (\<lparr>iter = Some 0\<rparr>, [\<lparr>target = ?C, index = 0\<rparr>])"
    by (simp add: seq_begin_def alloc_def ContainerIterator_wrap_def)
  have eC: "seq_end ?C [\<lparr>target = ?C, index = 0\<rparr>]
      = (\<lparr>iter = Some 1\<rparr>, [\<lparr>target = ?C, index = 0\<rparr>, \<lparr>target = ?C, index = 2\<rparr>])"
    by (simp add: seq_end_def alloc_def ContainerIterator_wrap_def)
  from begin_eq_end_iff_empty [OF bE eE] begin_eq_end_iff_empty [OF bC eC]
  show ?thesis
    by (simp add: seq_size_def)
qed

text \<open>
  Claim C5: for every container \<open>C\<close>, in every reachable state of \<open>C\<close>, iterating from
  \<^verbatim>\<open>C.begin()\<close> to \<^verbatim>\<open>C.end()\<close> reaches the end, \<^verbatim>\<open>C.size()\<close> equals the number of
  distinct positions visited on the way, and the entities dereferenced at those positions
  are exactly the entities contained in \<open>C\<close>, \<^verbatim>\<open>C.size()\<close> distinct entities. Any fuel
  above \<^verbatim>\<open>C.size()\<close> is enough for the loop.
\<close>

theorem traversal_visits_contents:
  assumes "C = run (seq_new i) rs"
    and "seq_begin C hp = (b, hp1)" and "seq_end C hp1 = (e, hp2)"
    and "seq_size C < n"
  shows "\<exists>r. visit_all n seq_ops hp2 b e = Inr r
    \<and> card (fst ` set r) = seq_size C
    \<and> length r = seq_size C
    \<and> set (map snd r) = {x. seq_contains C x}
    \<and> card (set (map snd r)) = seq_size C"
proof -
  note h = begin_end_heap [OF assms(2,3)]
  let ?r = "map (\<lambda>j. (\<lparr>target = C, index = j\<rparr>, items C ! j)) [0..<length (items C)]"
  have run: "visit_all n seq_ops hp2 b e = Inr ?r"
    unfolding h(1,2) using h(3,4) assms(4)
    by (intro visit_from) (simp_all add: seq_size_def)
  have "inj_on (\<lambda>j. \<lparr>target = C, index = j\<rparr>) {0..<length (items C)}"
    by (rule inj_onI) simp
  then have positions: "card (fst ` set ?r) = seq_size C"
    by (simp add: image_image seq_size_def card_image)
  have snd_r: "map snd ?r = items C"
    by (simp add: map_nth o_def)
  have dist: "distinct (items C)"
    unfolding assms(1) by (rule run_new_distinct)
  have len: "length ?r = seq_size C"
    by (simp add: seq_size_def)
  have ents: "set (map snd ?r) = {x. seq_contains C x}"
    unfolding snd_r by (auto simp: seq_contains_def)
  have cnt: "card (set (map snd ?r)) = seq_size C"
    unfolding snd_r using dist by (simp add: distinct_card seq_size_def)
  from run positions len ents cnt show ?thesis
    by blast
qed


theorem traversal_visits_contents_witness:
  "\<exists>r. visit_all 3 seq_ops
         [\<lparr>target = \<lparr>ident = 7, items = [2, 3]\<rparr>, index = 0\<rparr>,
          \<lparr>target = \<lparr>ident = 7, items = [2, 3]\<rparr>, index = 2\<rparr>]
         \<lparr>iter = Some 0\<rparr> \<lparr>iter = Some 1\<rparr> = Inr r
     \<and> card (fst ` set r) = 2
     \<and> length r = 2
     \<and> set (map snd r) = {2::nat, 3}"
proof -
  let ?C = "\<lparr>ident = 7, items = [2::nat, 3]\<rparr>"
  have reach: "?C = run (seq_new 7) [Add 1, Add 2, Add 1, Remove 1, Add 3]"
    by (simp add: run_def seq_new_def seq_add_def seq_remove_def seq_contains_def)
  have b: "seq_begin ?C [] = (\<lparr>iter = Some 0\<rparr>, [\<lparr>target = ?C, index = 0\<rparr>])"
    by (simp add: seq_begin_def alloc_def ContainerIterator_wrap_def)
  have e: "seq_end ?C [\<lparr>target = ?C, index = 0\<rparr>]
      = (\<lparr>iter = Some 1\<rparr>, [\<lparr>target = ?C, index = 0\<rparr>, \<lparr>target = ?C, index = 2\<rparr>])"
    by (simp add: seq_end_def alloc_def ContainerIterator_wrap_def)
  have fuel: "seq_size ?C < 3"
    by (simp add: seq_size_def)
  have size: "seq_size ?C = 2"
    by (simp add: seq_size_def)
  have ents: "{x. seq_contains ?C x} = {2, 3}"
    by (auto simp: seq_contains_def)
  from traversal_visits_contents [OF reach b e fuel] show ?thesis
    unfolding size ents by blast
qed

end
